theory Spec2Isabelle
  imports Complex_Main "HOL-Library.Word"
begin

section \<open>Values of the host platform\<close>

text \<open>
  The services module runs in a browser. Its exceptions are values of \<open>error\<close>; a function
  that may throw (or an async function whose promise may reject) returns \<open>error + 'a\<close>,
  with \<open>Inl\<close> for the exception.
\<close>

datatype error =
    RangeError            \<comment> \<open>typed-array construction over a buffer of the wrong size\<close>
  | NotSupportedError     \<comment> \<open>\<open>createBuffer\<close> with an argument outside its nominal range\<close>
  | IndexSizeError        \<comment> \<open>\<open>getChannelData\<close> with a channel the buffer does not have\<close>
  | InvalidCharacterError \<comment> \<open>\<open>atob\<close> on text that is not base64\<close>
  | SyntaxError           \<comment> \<open>\<open>JSON.parse\<close> on text that is not JSON\<close>
  | TypeError             \<comment> \<open>property read on \<open>null\<close>\<close>
  | Error string          \<comment> \<open>\<open>new Error(message)\<close>\<close>
  | ServiceError string   \<comment> \<open>whatever a call of the remote service or of the platform throws\<close>

text \<open>
  An element of a \<open>Float32Array\<close>. Every number the decoder stores is a 16-bit integer
  divided by \<open>32768\<close>, which binary32 represents exactly, so a finite element is carried as
  the rational it denotes. \<open>NaN\<close> is what \<open>undefined / 32768.0\<close> evaluates to.
\<close>

datatype float32 = Float rat | NaN

type_synonym byte = "8 word"
type_synonym int16 = "16 word"

section \<open>Typed arrays\<close>

text \<open>
  \<open>new Int16Array(buffer)\<close> views the whole \<open>ArrayBuffer\<close> as 16-bit signed integers in
  the byte order of the platform (little-endian on every platform a browser runs on):
  element \<open>k\<close> is made of bytes \<open>2k\<close> (low) and \<open>2k + 1\<close> (high). The constructor throws
  a \<open>RangeError\<close> when the byte length of the buffer is not a multiple of the element size.
\<close>

definition le16 :: "byte \<Rightarrow> byte \<Rightarrow> int16" where
  "le16 lo hi = word_of_int (uint lo + 256 * uint hi)"

fun int16s :: "byte list \<Rightarrow> int16 list" where
  "int16s (lo # hi # bs) = le16 lo hi # int16s bs"
| "int16s bs = []"

definition newInt16Array :: "byte list \<Rightarrow> error + int16 list" where
  "newInt16Array buffer =
     (if length buffer mod 2 \<noteq> 0 then Inl RangeError else Inr (int16s buffer))"

text \<open>
  Reading a typed array at an index outside \<open>0 .. length - 1\<close> gives \<open>undefined\<close>
  (\<open>None\<close>); writing there is ignored.
\<close>

definition getIndex :: "'a list \<Rightarrow> int \<Rightarrow> 'a option" where
  "getIndex xs k = (if 0 \<le> k \<and> k < int (length xs) then Some (xs ! nat k) else None)"

definition setIndex :: "'a list \<Rightarrow> nat \<Rightarrow> 'a \<Rightarrow> 'a list" where
  "setIndex xs k v = (if k < length xs then xs[k := v] else xs)"

text \<open>\<open>x / 32768.0\<close> for \<open>x\<close> read from an \<open>Int16Array\<close>, stored into a \<open>Float32Array\<close>.\<close>

definition div32768 :: "int16 option \<Rightarrow> float32" where
  "div32768 x = (case x of None \<Rightarrow> NaN | Some v \<Rightarrow> Float (rat_of_int (sint v) / 32768))"

section \<open>The audio context\<close>

text \<open>
  \<open>decodeAudioData\<close> receives the \<open>AudioContext\<close> as an argument and calls
  \<open>createBuffer(numberOfChannels, length, sampleRate)\<close> on it. The method is declared
  with two \<open>unsigned long\<close> arguments and a \<open>float\<close>; a JavaScript number passed for an
  \<open>unsigned long\<close> is truncated towards zero and reduced modulo \<open>2 ^ 32\<close>
  (\<open>NaN\<close> and the infinities become \<open>0\<close>). The method throws a
  \<open>NotSupportedError\<close> when an argument is zero or outside its nominal range; the largest
  channel count and the sample rates an implementation offers are its own (at least 32
  channels and 8000 to 96000 Hz), so they are fields of the context. A buffer that is
  created holds \<open>numberOfChannels\<close> channels of \<open>length\<close> zeros each.
\<close>

datatype AudioContextState = Suspended | Running | Closed

record AudioContext =
  state :: AudioContextState
  maxChannels :: "32 word"
  minSampleRate :: rat
  maxSampleRate :: rat

record AudioBuffer =
  rate :: rat
  channels :: "float32 list list"

definition unsignedLong :: "rat \<Rightarrow> 32 word" where
  "unsignedLong x = word_of_int (if x < 0 then - \<lfloor>- x\<rfloor> else \<lfloor>x\<rfloor>)"

definition createBuffer :: "AudioContext \<Rightarrow> 32 word \<Rightarrow> 32 word \<Rightarrow> rat \<Rightarrow> error + AudioBuffer" where
  "createBuffer ctx numberOfChannels len sampleRate =
     (if numberOfChannels = 0 \<or> maxChannels ctx < numberOfChannels \<or> len = 0
         \<or> sampleRate < minSampleRate ctx \<or> maxSampleRate ctx < sampleRate
      then Inl NotSupportedError
      else Inr \<lparr>rate = sampleRate,
                channels = replicate (unat numberOfChannels) (replicate (unat len) (Float 0))\<rparr>)"

definition getChannelData :: "AudioBuffer \<Rightarrow> nat \<Rightarrow> error + float32 list" where
  "getChannelData buffer channel =
     (if channel < length (channels buffer) then Inr (channels buffer ! channel)
      else Inl IndexSizeError)"

section \<open>The PCM decoder\<close>

text \<open>
  The inner loop of \<open>decodeAudioData\<close>:
  \<open>for (let i = 0; i < frameCount; i++) channelData[i] = dataInt16[i * numChannels + channel] / 32768.0\<close>.
  \<open>frameCount\<close> is the quotient of two numbers and need not be an integer.
\<close>

function sampleLoop :: "int16 list \<Rightarrow> int \<Rightarrow> rat \<Rightarrow> nat \<Rightarrow> nat \<Rightarrow> float32 list \<Rightarrow> float32 list" where
  "sampleLoop dataInt16 numChannels frameCount channel i channelData =
     (if rat_of_nat i < frameCount
      then sampleLoop dataInt16 numChannels frameCount channel (Suc i)
             (setIndex channelData i
                (div32768 (getIndex dataInt16 (int i * numChannels + int channel))))
      else channelData)"
  by pat_completeness auto
termination
proof (relation "measure (\<lambda>(d, n, fc, c, i, cd). nat \<lceil>fc\<rceil> - i)")
  show "wf (measure (\<lambda>(d, n, fc, c, i, cd). nat \<lceil>fc :: rat\<rceil> - i))"
    by simp
next
  fix dataInt16 :: "int16 list" and numChannels :: int and frameCount :: rat
    and channel i :: nat and channelData :: "float32 list"
  assume "rat_of_nat i < frameCount"
  then have "int i < \<lceil>frameCount\<rceil>"
    by (simp add: less_ceiling_iff)
  then show "((dataInt16, numChannels, frameCount, channel, Suc i,
                setIndex channelData i
                  (div32768 (getIndex dataInt16 (int i * numChannels + int channel)))),
              (dataInt16, numChannels, frameCount, channel, i, channelData))
             \<in> measure (\<lambda>(d, n, fc, c, i, cd). nat \<lceil>fc\<rceil> - i)"
    by simp
qed

declare sampleLoop.simps [simp del]

text \<open>
  The outer loop: \<open>for (let channel = 0; channel < numChannels; channel++)\<close>. The array
  returned by \<open>getChannelData\<close> is the channel's own storage, so the writes of the inner
  loop change the buffer.
\<close>

function channelLoop :: "int16 list \<Rightarrow> int \<Rightarrow> rat \<Rightarrow> nat \<Rightarrow> AudioBuffer \<Rightarrow> error + AudioBuffer" where
  "channelLoop dataInt16 numChannels frameCount channel buffer =
     (if int channel < numChannels
      then (case getChannelData buffer channel of
              Inl e \<Rightarrow> Inl e
            | Inr channelData \<Rightarrow>
                channelLoop dataInt16 numChannels frameCount (Suc channel)
                  (buffer\<lparr>channels := (channels buffer)
                     [channel := sampleLoop dataInt16 numChannels frameCount channel 0 channelData]\<rparr>))
      else Inr buffer)"
  by pat_completeness auto
termination
  by (relation "measure (\<lambda>(d, n, fc, c, b). nat (n - int c))") auto

declare channelLoop.simps [simp del]

text \<open>
  \<open>decodeAudioData(data, ctx, sampleRate, numChannels)\<close>. \<open>data\<close> is the
  \<open>Uint8Array\<close> that \<open>decode\<close> allocates, which spans its whole \<open>ArrayBuffer\<close>, so
  \<open>data.buffer\<close> holds exactly the bytes of \<open>data\<close>. With \<open>numChannels = 0\<close> the
  quotient \<open>dataInt16.length / numChannels\<close> is \<open>Infinity\<close> or \<open>NaN\<close>, which
  \<open>createBuffer\<close> receives as length \<open>0\<close>, and the channel loop has nothing to do.
\<close>

definition decodeAudioData :: "byte list \<Rightarrow> AudioContext \<Rightarrow> rat \<Rightarrow> int \<Rightarrow> error + AudioBuffer" where
  "decodeAudioData data ctx sampleRate numChannels =
     (case newInt16Array data of
        Inl e \<Rightarrow> Inl e
      | Inr dataInt16 \<Rightarrow>
          if numChannels = 0
          then createBuffer ctx 0 0 sampleRate
          else
            let frameCount = rat_of_nat (length dataInt16) / rat_of_int numChannels in
            (case createBuffer ctx (unsignedLong (rat_of_int numChannels))
                    (unsignedLong frameCount) sampleRate of
               Inl e \<Rightarrow> Inl e
             | Inr buffer \<Rightarrow> channelLoop dataInt16 numChannels frameCount 0 buffer))"

text \<open>A context that offers exactly what every implementation must.\<close>

definition minimalContext :: AudioContext where
  "minimalContext =
     \<lparr>state = Running, maxChannels = 32, minSampleRate = 8000, maxSampleRate = 96000\<rparr>"


text \<open>
  The decoder's output as the specification words it: channel \<open>c\<close> holds, at frame \<open>i\<close>,
  the sample at position \<open>i * numChannels + c\<close> of the 16-bit array divided by \<open>32768\<close>.
\<close>

definition deinterleave :: "int16 list \<Rightarrow> nat \<Rightarrow> nat \<Rightarrow> float32 list list" where
  "deinterleave d n fc =
     map (\<lambda>c. map (\<lambda>i. Float (rat_of_int (sint (d ! (i * n + c))) / 32768)) [0..<fc]) [0..<n]"

text \<open>
  Modelled from the spec: the inverse quantization of the round-trip test, which the
  repository does not contain. A sample is scaled by \<open>32768\<close> and rounded to the nearest
  integer; \<open>NaN\<close> has no integer.
\<close>

definition requantize :: "float32 \<Rightarrow> int option" where
  "requantize x = (case x of NaN \<Rightarrow> None | Float v \<Rightarrow> Some (round (v * 32768)))"

section \<open>The remote service\<close>

text \<open>
  \<open>ai.models.generateContent\<close> is called three times in the module, each time with a
  fixed model and a prompt built from the function's arguments; a request is named by its
  purpose and those arguments. Of a response the module reads \<open>text\<close> and
  \<open>candidates?.[0]?.content?.parts\<close>; \<open>parts'\<close> is \<open>None\<close> when a link of that
  chain is missing. A field that may be \<open>undefined\<close> is an option.
\<close>

datatype Request =
    SpeechRequest string string           \<comment> \<open>text, voiceName\<close>
  | TextAnalysisRequest string string string  \<comment> \<open>term, nativeLang, targetLang\<close>
  | ImageRequest string                   \<comment> \<open>term\<close>

record InlineData =
  mimeType :: "string option"
  data' :: "string option"

record Part =
  inlineData :: "InlineData option"

record Response =
  text' :: "string option"
  parts' :: "Part list option"

record Example =
  target :: string
  native :: string

text \<open>
  The value \<open>JSON.parse\<close> returns for the text response, as far as \<open>lookupTerm\<close>
  reads it: four properties, any of which may be absent (the request asks the service for
  an object with these properties). \<open>JSON.parse\<close> can also return \<open>null\<close>, which
  has no properties: that is \<open>None\<close> below.
\<close>

record TextData =
  tdPhonetic :: "string option"
  tdDefinition :: "string option"
  tdExamples :: "Example list option"
  tdUsageGuide :: "string option"

text \<open>
  What the module takes from its surroundings: the remote service, \<open>atob\<close>,
  \<open>JSON.parse\<close>, the \<open>AudioContext\<close> constructor, \<open>resume\<close>, and the readings of
  \<open>Date.now()\<close> in the order they are taken.
\<close>

record Platform =
  generateContent :: "Request \<Rightarrow> error + Response"
  atob :: "string \<Rightarrow> error + string"
  jsonParse :: "string \<Rightarrow> error + TextData option"
  newAudioContext :: "rat \<Rightarrow> error + AudioContext"
  resume :: "AudioContext \<Rightarrow> error + unit"
  dateNow :: "nat \<Rightarrow> nat"

section \<open>Playing audio\<close>






section \<open>Dictionary lookup\<close>

record DictionaryEntry =
  id' :: string
  term' :: string
  phonetic :: "string option"
  definition' :: "string option"
  examples :: "Example list"
  usageGuide :: "string option"
  imageUrl :: "string option"
  savedAt :: nat

text \<open>\<open>Number.prototype.toString\<close> on a non-negative integer: its decimal digits.\<close>

function toString :: "nat \<Rightarrow> string" where
  "toString n =
     (if n < 10 then [char_of (48 + n)] else toString (n div 10) @ [char_of (48 + n mod 10)])"
  by pat_completeness auto
termination
  by (relation "measure id") auto

declare toString.simps [simp del]

text \<open>An absent value inside a template literal prints as \<open>undefined\<close>.\<close>

definition interpolate :: "string option \<Rightarrow> string" where
  "interpolate v = (case v of None \<Rightarrow> ''undefined'' | Some s \<Rightarrow> s)"

text \<open>
  The loop over the parts of the image response: the first part that has inline data
  gives the URL and ends the loop.
\<close>

fun firstInlineImage :: "Part list \<Rightarrow> string option" where
  "firstInlineImage [] = None"
| "firstInlineImage (part # rest) =
     (case inlineData part of
        Some d \<Rightarrow> Some (''data:'' @ interpolate (mimeType d) @ '';base64,'' @ interpolate (data' d))
      | None \<Rightarrow> firstInlineImage rest)"

text \<open>The \<open>try\<close>/\<open>catch\<close> around image generation: an exception leaves \<open>imageUrl\<close> undefined.\<close>

definition generateImageUrl :: "Platform \<Rightarrow> string \<Rightarrow> string option" where
  "generateImageUrl p term =
     (case generateContent p (ImageRequest term) of
        Inl e \<Rightarrow> None
      | Inr imageResponse \<Rightarrow>
          firstInlineImage (case parts' imageResponse of None \<Rightarrow> [] | Some ps \<Rightarrow> ps))"

text \<open>\<open>textResponse.text || "{}"\<close>: a missing or empty text is replaced.\<close>

definition textOrEmptyObject :: "Response \<Rightarrow> string" where
  "textOrEmptyObject textResponse =
     (case text' textResponse of None \<Rightarrow> ''{}'' | Some t \<Rightarrow> if t = [] then ''{}'' else t)"

text \<open>
  \<open>lookupTerm(term, nativeLang, targetLang)\<close>. The properties of \<open>textData\<close> are
  read in the \<open>return\<close> statement, after image generation; reading them from
  \<open>null\<close> throws. The warning the \<open>catch\<close> block prints is left out.
\<close>

definition lookupTerm :: "Platform \<Rightarrow> string \<Rightarrow> string \<Rightarrow> string \<Rightarrow> error + DictionaryEntry" where
  "lookupTerm p term nativeLang targetLang =
     (case generateContent p (TextAnalysisRequest term nativeLang targetLang) of
        Inl e \<Rightarrow> Inl e
      | Inr textResponse \<Rightarrow>
          (case jsonParse p (textOrEmptyObject textResponse) of
             Inl e \<Rightarrow> Inl e
           | Inr parsed \<Rightarrow>
               let imageUrl = generateImageUrl p term in
               (case parsed of
                  None \<Rightarrow> Inl TypeError
                | Some textData \<Rightarrow>
                    Inr \<lparr>id' = toString (dateNow p 0),
                         term' = term,
                         phonetic = tdPhonetic textData,
                         definition' = tdDefinition textData,
                         examples = (case tdExamples textData of None \<Rightarrow> [] | Some xs \<Rightarrow> xs),
                         usageGuide = tdUsageGuide textData,
                         imageUrl = imageUrl,
                         savedAt = dateNow p 1\<rparr>)))"

section \<open>The notebook\<close>

text \<open>
  \<open>toggleSave\<close> of the application component, as a function from the current result and
  the notebook to the notebook it sets. Without a current result it returns at once.
\<close>

definition toggleSave :: "DictionaryEntry option \<Rightarrow> DictionaryEntry list \<Rightarrow> DictionaryEntry list" where
  "toggleSave currentResult notebook =
     (case currentResult of
        None \<Rightarrow> notebook
      | Some cur \<Rightarrow>
          (case find (\<lambda>n. term' n = term' cur) notebook of
             Some exists \<Rightarrow> filter (\<lambda>n. term' n \<noteq> term' cur) notebook
           | None \<Rightarrow> cur # notebook))"

section \<open>Sample surroundings\<close>

text \<open>
  A platform for concrete runs. Its speech response carries the base64 text \<open>AAD/fw==\<close>,
  which \<open>atob\<close> decodes to the four bytes \<open>00 00 FF 7F\<close>; its text response is the JSON
  text of an object with one property, \<open>definition\<close>; its image generation fails.
  \<open>atob\<close> and \<open>JSON.parse\<close> are given on the texts the runs pass to them (\<open>{}\<close>,
  \<open>null\<close> and the text response for \<open>JSON.parse\<close>) and refuse every other text.
  The readings of its clock are \<open>0\<close>, \<open>1\<close>, and so on.
\<close>

definition demoPlatform :: Platform where
  \<open>demoPlatform =
     \<lparr>generateContent = (\<lambda>request.
        case request of
          SpeechRequest t v \<Rightarrow>
            Inr \<lparr>text' = None,
                 parts' = Some [\<lparr>inlineData =
                            Some \<lparr>mimeType = Some ''audio/L16'', data' = Some ''AAD/fw==''\<rparr>\<rparr>]\<rparr>
        | TextAnalysisRequest t n g \<Rightarrow>
            Inr \<lparr>text' = Some ''{"definition":"hello"}'', parts' = None\<rparr>
        | ImageRequest t \<Rightarrow> Inl (ServiceError ''quota'')),
      atob = (\<lambda>base64.
        if base64 = ''AAD/fw==''
        then Inr [char_of (0 :: nat), char_of (0 :: nat), char_of (255 :: nat), char_of (127 :: nat)]
        else Inl InvalidCharacterError),
      jsonParse = (\<lambda>s.
        if s = ''{"definition":"hello"}''
        then Inr (Some \<lparr>tdPhonetic = None, tdDefinition = Some ''hello'',
                         tdExamples = None, tdUsageGuide = None\<rparr>)
        else if s = ''{}''
        then Inr (Some \<lparr>tdPhonetic = None, tdDefinition = None,
                         tdExamples = None, tdUsageGuide = None\<rparr>)
        else if s = ''null'' then Inr None
        else Inl SyntaxError),
      newAudioContext = (\<lambda>sampleRate. Inr (minimalContext\<lparr>state := Suspended\<rparr>)),
      resume = (\<lambda>ctx. Inr ()),
      dateNow = (\<lambda>k. k)\<rparr>\<close>


text \<open>
  The same platform with responses that carry nothing: the speech and image responses have
  one part without inline data, the text response has no text.
\<close>

definition silentPlatform :: Platform where
  "silentPlatform =
     demoPlatform\<lparr>generateContent := (\<lambda>request.
        case request of
          SpeechRequest t v \<Rightarrow> Inr \<lparr>text' = None, parts' = Some [\<lparr>inlineData = None\<rparr>]\<rparr>
        | TextAnalysisRequest t n g \<Rightarrow> Inr \<lparr>text' = None, parts' = None\<rparr>
        | ImageRequest t \<Rightarrow> Inr \<lparr>text' = None, parts' = Some [\<lparr>inlineData = None\<rparr>]\<rparr>)\<rparr>"

text \<open>The same platform with the text response \<open>null\<close>.\<close>

definition nullTextPlatform :: Platform where
  "nullTextPlatform =
     demoPlatform\<lparr>generateContent := (\<lambda>request.
        case request of
          TextAnalysisRequest t n g \<Rightarrow> Inr \<lparr>text' = Some ''null'', parts' = None\<rparr>
        | SpeechRequest t v \<Rightarrow> generateContent demoPlatform request
        | ImageRequest t \<Rightarrow> generateContent demoPlatform request)\<rparr>"

text \<open>A notebook entry for a given term.\<close>

definition sampleEntry :: "string \<Rightarrow> DictionaryEntry" where
  "sampleEntry t =
     \<lparr>id' = ''1700000000000'', term' = t, phonetic = None, definition' = Some ''a word'',
      examples = [], usageGuide = None, imageUrl = None, savedAt = 1700000000000\<rparr>"

section \<open>What the two loops compute\<close>

lemma sampleLoop_length:
  "length (sampleLoop d n fc c i cd) = length cd"
proof (induction d n fc c i cd rule: sampleLoop.induct)
  case (1 d n fc c i cd)
  show ?case
  proof (cases "rat_of_nat i < fc")
    case True
    with "1" show ?thesis by (simp add: setIndex_def sampleLoop.simps [of d n fc c i cd])
  next
    case False
    then show ?thesis by (simp add: sampleLoop.simps [of d n fc c i cd])
  qed
qed

lemma sampleLoop_nth:
  "j < length cd \<Longrightarrow>
   sampleLoop d n fc c i cd ! j =
     (if i \<le> j \<and> rat_of_nat j < fc
      then div32768 (getIndex d (int j * n + int c)) else cd ! j)"
proof (induction d n fc c i cd rule: sampleLoop.induct)
  case (1 d n fc c i cd)
  show ?case
  proof (cases "rat_of_nat i < fc")
    case True
    let ?cd = "setIndex cd i (div32768 (getIndex d (int i * n + int c)))"
    have len: "j < length ?cd" using "1.prems" by (simp add: setIndex_def)
    have step: "sampleLoop d n fc c i cd = sampleLoop d n fc c (Suc i) ?cd"
      using True by (simp add: sampleLoop.simps [of d n fc c i cd])
    have "sampleLoop d n fc c (Suc i) ?cd ! j =
        (if Suc i \<le> j \<and> rat_of_nat j < fc
         then div32768 (getIndex d (int j * n + int c)) else ?cd ! j)"
      using "1.IH" [OF True len] .
    then show ?thesis
      using True "1.prems" by (auto simp: step setIndex_def not_less_eq_eq)
  next
    case False
    have "\<not> (i \<le> j \<and> rat_of_nat j < fc)"
    proof
      assume a: "i \<le> j \<and> rat_of_nat j < fc"
      then have "rat_of_nat i \<le> rat_of_nat j" by simp
      with a False show False by linarith
    qed
    then have nb: "(i \<le> j \<and> rat_of_nat j < fc) = False" by simp
    have eq: "sampleLoop d n fc c i cd = cd"
      using False by (simp add: sampleLoop.simps [of d n fc c i cd])
    show ?thesis by (simp only: nb if_False eq)
  qed
qed

lemma channelLoop_dims:
  "channelLoop d n fc c b = Inr b' \<Longrightarrow>
   rate b' = rate b \<and> map length (channels b') = map length (channels b)
   \<and> (n \<le> int c \<or> n \<le> int (length (channels b)))"
proof (induction d n fc c b rule: channelLoop.induct)
  case (1 d n fc c b)
  show ?case
  proof (cases "int c < n")
    case True
    note lt = this
    show ?thesis
    proof (cases "c < length (channels b)")
      case True
      let ?b = "b\<lparr>channels := (channels b)[c := sampleLoop d n fc c 0 (channels b ! c)]\<rparr>"
      have g: "getChannelData b c = Inr (channels b ! c)" using True by (simp add: getChannelData_def)
      have "channelLoop d n fc (Suc c) ?b = Inr b'"
        using "1.prems" lt g by (simp add: channelLoop.simps [of d n fc c b])
      from "1.IH" [OF lt g this] show ?thesis
        using True by (auto simp: map_update sampleLoop_length list_update_same_conv)
    next
      case False
      then show ?thesis using "1.prems" lt by (simp add: getChannelData_def channelLoop.simps [of d n fc c b])
    qed
  next
    case False
    then show ?thesis using "1.prems" by (simp add: channelLoop.simps [of d n fc c b])
  qed
qed

lemma channelLoop_result:
  "n \<le> int (length (channels b)) \<Longrightarrow>
   channelLoop d n fc c b =
     Inr (b\<lparr>channels := map (\<lambda>k. if c \<le> k \<and> int k < n
                                then sampleLoop d n fc k 0 (channels b ! k)
                                else channels b ! k) [0..<length (channels b)]\<rparr>)"
proof (induction d n fc c b rule: channelLoop.induct)
  case (1 d n fc c b)
  show ?case
  proof (cases "int c < n")
    case True
    then have c: "c < length (channels b)" using "1.prems" by simp
    let ?b = "b\<lparr>channels := (channels b)[c := sampleLoop d n fc c 0 (channels b ! c)]\<rparr>"
    have g: "getChannelData b c = Inr (channels b ! c)" using c by (simp add: getChannelData_def)
    have n: "n \<le> int (length (channels ?b))" using "1.prems" by simp
    have step: "channelLoop d n fc c b = channelLoop d n fc (Suc c) ?b"
      using True g by (simp add: channelLoop.simps [of d n fc c b])
    have "map (\<lambda>k. if Suc c \<le> k \<and> int k < n
                    then sampleLoop d n fc k 0 (channels ?b ! k) else channels ?b ! k)
            [0..<length (channels ?b)]
        = map (\<lambda>k. if c \<le> k \<and> int k < n
                    then sampleLoop d n fc k 0 (channels b ! k) else channels b ! k)
            [0..<length (channels b)]"
      using True c by (auto simp: nth_list_update not_less_eq_eq)
    then show ?thesis
      using "1.IH" [OF True g n] by (simp add: step)
  next
    case False
    have "map (\<lambda>k. if c \<le> k \<and> int k < n
                    then sampleLoop d n fc k 0 (channels b ! k) else channels b ! k)
            [0..<length (channels b)] = channels b"
    proof (rule nth_equalityI)
      show "length (map (\<lambda>k. if c \<le> k \<and> int k < n
                    then sampleLoop d n fc k 0 (channels b ! k) else channels b ! k)
            [0..<length (channels b)]) = length (channels b)" by simp
    next
      fix k assume "k < length (map (\<lambda>k. if c \<le> k \<and> int k < n
                    then sampleLoop d n fc k 0 (channels b ! k) else channels b ! k)
            [0..<length (channels b)])"
      then have k: "k < length (channels b)" by simp
      have "\<not> (c \<le> k \<and> int k < n)" using False by linarith
      then show "map (\<lambda>k. if c \<le> k \<and> int k < n
                    then sampleLoop d n fc k 0 (channels b ! k) else channels b ! k)
            [0..<length (channels b)] ! k = channels b ! k"
        using k by auto
    qed
    with False show ?thesis by (simp add: channelLoop.simps [of d n fc c b])
  qed
qed

lemma length_int16s: "length (int16s bs) = length bs div 2"
  by (induction bs rule: int16s.induct) auto

lemma int16s_nth:
  "k < length bs div 2 \<Longrightarrow> int16s bs ! k = le16 (bs ! (2 * k)) (bs ! (2 * k + 1))"
proof (induction bs arbitrary: k rule: int16s.induct)
  case (1 lo hi bs)
  then show ?case by (cases k) auto
qed auto

lemma unsignedLong_of_int: "unsignedLong (rat_of_int n) = word_of_int n"
  by (simp add: unsignedLong_def)

lemma unsignedLong_quotient_nat:
  "unsignedLong (rat_of_nat m / rat_of_nat n) = word_of_nat (m div n)"
proof -
  have "\<not> rat_of_nat m / rat_of_nat n < 0" by (simp add: not_less)
  moreover have "\<lfloor>rat_of_nat m / rat_of_nat n\<rfloor> = int (m div n)"
    by (simp add: floor_divide_of_nat_eq)
  ultimately show ?thesis by (simp add: unsignedLong_def)
qed

lemma getIndex_nat: "getIndex xs (int m) = (if m < length xs then Some (xs ! m) else None)"
  by (simp add: getIndex_def)

lemma frame_in_range:
  assumes "0 < n" "j < m div n" "k < n"
  shows "j * n + k < (m :: nat)"
proof -
  have "j * n + k < (Suc j) * n" using assms by simp
  also have "\<dots> \<le> (m div n) * n" using assms by (intro mult_le_mono1) simp
  also have "\<dots> \<le> m" by simp
  finally show ?thesis .
qed

lemma frame_below_quotient:
  assumes "0 < n" "j < m div n"
  shows "rat_of_nat j < rat_of_nat m / rat_of_int (int n)"
proof -
  have "j * n + 0 < m" using assms by (intro frame_in_range) auto
  then have "j * n < m" by simp
  then have "rat_of_nat (j * n) < rat_of_nat m" by (simp only: of_nat_less_iff)
  then have "rat_of_nat j * rat_of_nat n < rat_of_nat m" by (simp only: of_nat_mult)
  then show ?thesis using assms by (simp add: pos_less_divide_eq)
qed


lemma decodeAudioData_result:
  assumes even: "even (length data)"
    and pos: "0 < numChannels"
    and chans: "numChannels \<le> uint (maxChannels ctx)"
    and rates: "minSampleRate ctx \<le> sampleRate" "sampleRate \<le> maxSampleRate ctx"
    and full: "nat numChannels \<le> length data div 2"
    and small: "length data < 2 ^ 32"
  shows "decodeAudioData data ctx sampleRate numChannels =
           Inr \<lparr>rate = sampleRate,
                channels = deinterleave (int16s data) (nat numChannels)
                             (length data div 2 div nat numChannels)\<rparr>"
proof -
  define d where "d = int16s data"
  define n where "n = nat numChannels"
  define fc where "fc = length d div n"
  define q where "q = rat_of_nat (length d) / rat_of_int numChannels"
  have n: "0 < n" "int n = numChannels" using pos by (simp_all add: n_def)
  have len_d: "length d = length data div 2" by (simp add: d_def length_int16s)
  have fc_pos: "0 < fc" using full n by (simp add: fc_def len_d n_def div_greater_zero_iff)
  have fc_small: "fc < 2 ^ 32"
  proof -
    have "fc \<le> length d" by (simp add: fc_def)
    also have "\<dots> \<le> length data" by (simp add: len_d)
    finally show ?thesis using small by simp
  qed
  have nc_small: "numChannels < 2 ^ 32"
  proof -
    have "uint (maxChannels ctx) < 2 ^ 32" using uint_lt2p [of "maxChannels ctx"] by simp
    with chans show ?thesis by simp
  qed
  have w1: "unsignedLong (rat_of_int numChannels) = word_of_int numChannels"
    by (rule unsignedLong_of_int)
  have u1: "uint (word_of_int numChannels :: 32 word) = numChannels"
    using pos nc_small by (simp add: uint_word_of_int take_bit_int_eq_self)
  have n1: "unat (word_of_int numChannels :: 32 word) = n"
    using u1 by (simp add: n_def unat_eq_nat_uint)
  have w2: "unsignedLong q = word_of_nat fc"
    using unsignedLong_quotient_nat [of "length d" n]
    by (simp add: q_def fc_def flip: n(2))
  have n2: "unat (word_of_nat fc :: 32 word) = fc"
    using fc_small by (simp add: unat_of_nat)
  have nz1: "(word_of_int numChannels :: 32 word) \<noteq> 0"
    using n1 n by (metis less_numeral_extra(3) unat_0)
  have nz2: "(word_of_nat fc :: 32 word) \<noteq> 0"
    using n2 fc_pos by (metis less_numeral_extra(3) unat_0)
  have le1: "\<not> maxChannels ctx < (word_of_int numChannels :: 32 word)"
    using chans u1 by (simp add: word_less_def)
  define b0 where "b0 = \<lparr>rate = sampleRate, channels = replicate n (replicate fc (Float 0))\<rparr>"
  have cb: "createBuffer ctx (unsignedLong (rat_of_int numChannels)) (unsignedLong q) sampleRate
              = Inr b0"
    using nz1 nz2 le1 rates by (simp add: createBuffer_def w1 w2 n1 n2 b0_def)
  have loop: "channelLoop d numChannels q 0 b0 =
      Inr (b0\<lparr>channels := map (\<lambda>k. if 0 \<le> k \<and> int k < numChannels
                                then sampleLoop d numChannels q k 0 (channels b0 ! k)
                                else channels b0 ! k) [0..<length (channels b0)]\<rparr>)"
    by (rule channelLoop_result) (simp add: b0_def n)
  have chan: "map (\<lambda>k. if 0 \<le> k \<and> int k < numChannels
                       then sampleLoop d numChannels q k 0 (channels b0 ! k)
                       else channels b0 ! k) [0..<length (channels b0)]
              = deinterleave d n fc"
  proof (rule nth_equalityI)
    show "length (map (\<lambda>k. if 0 \<le> k \<and> int k < numChannels
                       then sampleLoop d numChannels q k 0 (channels b0 ! k)
                       else channels b0 ! k) [0..<length (channels b0)])
          = length (deinterleave d n fc)"
      by (simp add: b0_def deinterleave_def)
  next
    fix k
    assume "k < length (map (\<lambda>k. if 0 \<le> k \<and> int k < numChannels
                       then sampleLoop d numChannels q k 0 (channels b0 ! k)
                       else channels b0 ! k) [0..<length (channels b0)])"
    then have k: "k < n" by (simp add: b0_def)
    then have k': "int k < numChannels" using n by linarith
    have "sampleLoop d numChannels q k 0 (replicate fc (Float 0))
          = map (\<lambda>i. Float (rat_of_int (sint (d ! (i * n + k))) / 32768)) [0..<fc]"
    proof (rule nth_equalityI)
      show "length (sampleLoop d numChannels q k 0 (replicate fc (Float 0)))
            = length (map (\<lambda>i. Float (rat_of_int (sint (d ! (i * n + k))) / 32768)) [0..<fc])"
        by (simp add: sampleLoop_length)
    next
      fix j
      assume "j < length (sampleLoop d numChannels q k 0 (replicate fc (Float 0)))"
      then have j: "j < fc" by (simp add: sampleLoop_length)
      have below: "rat_of_nat j < q"
        using frame_below_quotient [OF n(1), of j "length d"] j n by (simp add: q_def fc_def)
      have inr: "j * n + k < length d"
        using frame_in_range [OF n(1), of j "length d" k] j k by (simp add: fc_def)
      have idx: "int j * numChannels + int k = int (j * n + k)"
        using n by simp
      have "sampleLoop d numChannels q k 0 (replicate fc (Float 0)) ! j
            = div32768 (getIndex d (int j * numChannels + int k))"
        using sampleLoop_nth [of j "replicate fc (Float 0)" d numChannels q k 0] j below
        by simp
      also have "\<dots> = Float (rat_of_int (sint (d ! (j * n + k))) / 32768)"
        by (simp only: idx getIndex_nat inr if_True) (simp add: div32768_def)
      finally show "sampleLoop d numChannels q k 0 (replicate fc (Float 0)) ! j
            = map (\<lambda>i. Float (rat_of_int (sint (d ! (i * n + k))) / 32768)) [0..<fc] ! j"
        using j by simp
    qed
    then show "map (\<lambda>k. if 0 \<le> k \<and> int k < numChannels
                       then sampleLoop d numChannels q k 0 (channels b0 ! k)
                       else channels b0 ! k) [0..<length (channels b0)] ! k
               = deinterleave d n fc ! k"
      using k k' by (simp add: b0_def deinterleave_def)
  qed
  have "decodeAudioData data ctx sampleRate numChannels = channelLoop d numChannels q 0 b0"
    using even pos cb by (simp add: decodeAudioData_def newInt16Array_def d_def q_def Let_def)
  also have "\<dots> = Inr (b0\<lparr>channels := deinterleave d n fc\<rparr>)"
    by (simp only: loop chan)
  also have "\<dots> = Inr \<lparr>rate = sampleRate, channels = deinterleave d n fc\<rparr>"
    by (simp add: b0_def)
  finally show ?thesis by (simp add: d_def n_def fc_def length_int16s)
qed

section \<open>Failures of the decoder\<close>

lemma decodeAudioData_odd:
  "odd (length data) \<Longrightarrow> decodeAudioData data ctx sampleRate numChannels = Inl RangeError"
  by (simp add: decodeAudioData_def newInt16Array_def odd_iff_mod_2_eq_one)

lemma createBuffer_zero_length:
  "createBuffer ctx n 0 sampleRate = Inl NotSupportedError"
  by (simp add: createBuffer_def)

lemma createBuffer_zero_channels:
  "createBuffer ctx 0 len sampleRate = Inl NotSupportedError"
  by (simp add: createBuffer_def)

lemma deinterleave_nth:
  "c < n \<Longrightarrow> i < fc \<Longrightarrow>
   deinterleave d n fc ! c ! i = Float (rat_of_int (sint (d ! (i * n + c))) / 32768)"
  by (simp add: deinterleave_def)

lemma whole_frames:
  assumes "0 < n" "length data mod (2 * n) = 0" "i < length data div (2 * n)"
  shows "even (length data)" "n \<le> length data div 2" "length data div 2 div n = length data div (2 * n)"
proof -
  from assms(2) have "2 * n dvd length data" by (simp add: dvd_eq_mod_eq_0)
  then obtain k where k: "length data = 2 * n * k" by (auto simp: dvd_def)
  then show "even (length data)" by simp
  have "0 < k" using assms k by (cases k) auto
  then have "n * 1 \<le> n * k" by (intro mult_le_mono2) simp
  also have "n * k = length data div 2" using k by simp
  finally show "n \<le> length data div 2" by simp
  show "length data div 2 div n = length data div (2 * n)"
    by (simp add: div_mult2_eq)
qed

lemma whole_frames_sample:
  assumes "0 < numChannels"
    and "length data mod (2 * nat numChannels) = 0"
    and "numChannels \<le> uint (maxChannels ctx)"
    and "minSampleRate ctx \<le> sampleRate" and "sampleRate \<le> maxSampleRate ctx"
    and "length data < 2 ^ 32"
    and "c < nat numChannels" and "i < length data div (2 * nat numChannels)"
  shows "decodeAudioData data ctx sampleRate numChannels =
           Inr \<lparr>rate = sampleRate,
                channels = deinterleave (int16s data) (nat numChannels)
                             (length data div (2 * nat numChannels))\<rparr>"
    and "deinterleave (int16s data) (nat numChannels) (length data div (2 * nat numChannels)) ! c ! i
         = Float (rat_of_int (sint (le16 (data ! (2 * (i * nat numChannels + c)))
                                         (data ! (2 * (i * nat numChannels + c) + 1))))
                  / 32768)"
proof -
  let ?n = "nat numChannels"
  have n: "0 < ?n" using assms(1) by simp
  note wf = whole_frames [OF n assms(2) assms(8)]
  have i: "i < length data div 2 div ?n" using assms(8) wf(3) by simp
  have "decodeAudioData data ctx sampleRate numChannels =
      Inr \<lparr>rate = sampleRate,
           channels = deinterleave (int16s data) ?n (length data div 2 div ?n)\<rparr>"
    using assms(1) assms(3) assms(4) assms(5) assms(6) wf(1) wf(2)
    by (intro decodeAudioData_result)
  then show "decodeAudioData data ctx sampleRate numChannels =
      Inr \<lparr>rate = sampleRate,
           channels = deinterleave (int16s data) ?n (length data div (2 * ?n))\<rparr>"
    by (simp only: wf(3))
  have pos: "i * ?n + c < length data div 2"
    using frame_in_range [OF n i assms(7)] .
  have "deinterleave (int16s data) ?n (length data div 2 div ?n) ! c ! i
        = Float (rat_of_int (sint (int16s data ! (i * ?n + c))) / 32768)"
    using assms(7) i by (rule deinterleave_nth)
  also have "int16s data ! (i * ?n + c)
        = le16 (data ! (2 * (i * ?n + c))) (data ! (2 * (i * ?n + c) + 1))"
    using pos by (rule int16s_nth)
  finally show "deinterleave (int16s data) ?n (length data div (2 * ?n)) ! c ! i
         = Float (rat_of_int (sint (le16 (data ! (2 * (i * ?n + c)))
                                         (data ! (2 * (i * ?n + c) + 1))))
                  / 32768)"
    by (simp only: wf(3))
qed

section \<open>Properties of the decoder\<close>

text \<open>
  C1. When the byte length is a multiple of \<open>2 * numChannels\<close> and \<open>numChannels\<close> is
  positive, the bytes are read as little-endian signed 16-bit integers and sample \<open>i\<close> of
  channel \<open>c\<close> is the integer at position \<open>i * numChannels + c\<close> divided by \<open>32768\<close>,
  for every channel \<open>c\<close> and every frame \<open>i\<close> below the frame count. The buffer exists
  when the context offers the channel count and the sample rate; the byte length is below
  \<open>2 ^ 32\<close>, as that of every string \<open>atob\<close> can return.
\<close>

theorem decodeAudioData_samples:
  assumes "0 < numChannels"
    and "length data mod (2 * nat numChannels) = 0"
    and "numChannels \<le> uint (maxChannels ctx)"
    and "minSampleRate ctx \<le> sampleRate" and "sampleRate \<le> maxSampleRate ctx"
    and "length data < 2 ^ 32"
    and "c < nat numChannels" and "i < length data div (2 * nat numChannels)"
  shows "\<exists>buffer. decodeAudioData data ctx sampleRate numChannels = Inr buffer
           \<and> channels buffer ! c ! i =
               Float (rat_of_int (sint (le16 (data ! (2 * (i * nat numChannels + c)))
                                             (data ! (2 * (i * nat numChannels + c) + 1))))
                      / 32768)"
  using whole_frames_sample [OF assms] by simp

theorem decodeAudioData_samples_witness:
  "\<exists>buffer. decodeAudioData [0x00, 0x00, 0xFF, 0x7F] minimalContext 24000 1 = Inr buffer
     \<and> channels buffer ! 0 ! 0 = Float 0 \<and> channels buffer ! 0 ! 1 = Float (32767 / 32768)"
  using decodeAudioData_samples [of 1 "[0x00, 0x00, 0xFF, 0x7F]" minimalContext 24000 0 0]
    decodeAudioData_samples [of 1 "[0x00, 0x00, 0xFF, 0x7F]" minimalContext 24000 0 1]
  by (auto simp: minimalContext_def le16_def)

text \<open>
  C6, as the code has it. Decoding an empty byte sequence does not succeed: the empty
  16-bit view is built without error, but the buffer the decoder then asks for has length
  zero, which \<open>createBuffer\<close> refuses. This holds for every channel count and context.
\<close>

theorem decodeAudioData_empty:
  "decodeAudioData [] ctx sampleRate numChannels = Inl NotSupportedError"
  by (simp add: decodeAudioData_def newInt16Array_def unsignedLong_def createBuffer_zero_length)

theorem decodeAudioData_empty_counterexample:
  "decodeAudioData [] minimalContext 24000 1 = Inl NotSupportedError"
  by (simp add: decodeAudioData_def newInt16Array_def unsignedLong_def createBuffer_def)

section \<open>Frames and channels\<close>

lemma decodeAudioData_success_dims:
  assumes ok: "decodeAudioData data ctx sampleRate numChannels = Inr buffer"
    and pos: "0 < numChannels"
    and small: "length data < 2 ^ 32"
  shows "map length (channels buffer)
           = replicate (nat numChannels) (length data div 2 div nat numChannels)"
proof -
  define d where "d = int16s data"
  define n where "n = nat numChannels"
  define fc where "fc = length d div n"
  define q where "q = rat_of_nat (length d) / rat_of_int numChannels"
  define w1 :: "32 word" where "w1 = unsignedLong (rat_of_int numChannels)"
  define w2 :: "32 word" where "w2 = unsignedLong q"
  have n: "0 < n" "int n = numChannels" using pos by (simp_all add: n_def)
  have len_d: "length d = length data div 2" by (simp add: d_def length_int16s)
  have even: "even (length data)"
    using ok decodeAudioData_odd [of data ctx sampleRate numChannels] by auto
  obtain b0 where cb: "createBuffer ctx w1 w2 sampleRate = Inr b0"
    and loop: "channelLoop d numChannels q 0 b0 = Inr buffer"
    using ok even pos
    by (auto simp: decodeAudioData_def newInt16Array_def d_def q_def w1_def w2_def Let_def
             split: sum.splits)
  have b0: "channels b0 = replicate (unat w1) (replicate (unat w2) (Float 0))"
    using cb by (auto simp: createBuffer_def split: if_splits)
  from channelLoop_dims [OF loop]
  have dims: "map length (channels buffer) = map length (channels b0)"
    and reach: "numChannels \<le> int (length (channels b0))"
    using pos by auto
  have w1: "w1 = word_of_int numChannels" by (simp add: w1_def unsignedLong_of_int)
  have "unat w1 = nat (numChannels mod 2 ^ 32)"
    by (simp add: w1 unat_eq_nat_uint uint_word_of_int)
  with reach b0 have "numChannels \<le> numChannels mod 2 ^ 32" by simp
  moreover have "numChannels mod 2 ^ 32 \<le> numChannels"
    using pos by (intro zmod_le_nonneg_dividend) simp
  ultimately have "numChannels mod 2 ^ 32 = numChannels" by simp
  then have u1: "unat w1 = n" by (simp add: w1 unat_eq_nat_uint uint_word_of_int n_def)
  have "fc \<le> length d" by (simp add: fc_def)
  also have "\<dots> \<le> length data" by (simp add: len_d)
  finally have fc_small: "fc < 2 ^ 32" using small by simp
  have "w2 = word_of_nat fc"
    using unsignedLong_quotient_nat [of "length d" n]
    by (simp add: w2_def q_def fc_def flip: n(2))
  then have u2: "unat w2 = fc" using fc_small by (simp add: unat_of_nat)
  show ?thesis
    by (simp add: dims b0 u1 u2) (simp add: n_def fc_def len_d)
qed

lemma decodeAudioData_frames:
  assumes "even (length data)" and "0 < numChannels"
    and "nat numChannels \<le> length data div 2"
    and "numChannels \<le> uint (maxChannels ctx)"
    and "minSampleRate ctx \<le> sampleRate" and "sampleRate \<le> maxSampleRate ctx"
    and "length data < 2 ^ 32"
  shows "\<exists>buffer. decodeAudioData data ctx sampleRate numChannels = Inr buffer
           \<and> length (channels buffer) = nat numChannels
           \<and> (\<forall>channelData \<in> set (channels buffer).
                 length channelData = length data div 2 div nat numChannels)"
proof -
  have "decodeAudioData data ctx sampleRate numChannels =
           Inr \<lparr>rate = sampleRate,
                channels = deinterleave (int16s data) (nat numChannels)
                             (length data div 2 div nat numChannels)\<rparr>"
    using assms by (intro decodeAudioData_result)
  then show ?thesis by (auto simp: deinterleave_def)
qed

lemma int16s_take_nth:
  assumes "k < m" "2 * m \<le> length bs"
  shows "int16s (take (2 * m) bs) ! k = int16s bs ! k"
proof -
  have "k < length (take (2 * m) bs) div 2" using assms by simp
  then have "int16s (take (2 * m) bs) ! k
      = le16 (take (2 * m) bs ! (2 * k)) (take (2 * m) bs ! (2 * k + 1))"
    by (rule int16s_nth)
  also have "\<dots> = le16 (bs ! (2 * k)) (bs ! (2 * k + 1))"
    using assms by simp
  also have "\<dots> = int16s bs ! k"
    using assms by (intro int16s_nth [symmetric]) simp
  finally show ?thesis .
qed

lemma deinterleave_take:
  assumes "2 * (n * fc) \<le> length bs"
  shows "deinterleave (int16s (take (2 * (n * fc)) bs)) n fc = deinterleave (int16s bs) n fc"
proof -
  have "int16s (take (2 * (n * fc)) bs) ! (i * n + c) = int16s bs ! (i * n + c)"
    if "c < n" "i < fc" for c i
  proof -
    have "i * n + c < (fc * n) div n * n"
      using that by (intro frame_in_range [of n i "fc * n" c, THEN less_le_trans]) auto
    then have "i * n + c < n * fc" using that by (simp add: mult.commute)
    then show ?thesis using assms by (rule int16s_take_nth)
  qed
  then show ?thesis by (simp add: deinterleave_def)
qed

text \<open>
  C7. Whenever decoding succeeds for a positive \<open>numChannels\<close>, the buffer has
  \<open>numChannels\<close> channels and every one of them has exactly
  \<open>floor(sample count / numChannels)\<close> elements, so all channels have the same length.
\<close>

theorem decodeAudioData_channel_lengths:
  assumes "decodeAudioData data ctx sampleRate numChannels = Inr buffer"
    and "0 < numChannels"
    and "length data < 2 ^ 32"
  shows "length (channels buffer) = nat numChannels
         \<and> (\<forall>channelData \<in> set (channels buffer).
               length channelData = length data div 2 div nat numChannels)"
proof -
  note dims = decodeAudioData_success_dims [OF assms]
  have "length (channels buffer) = length (map length (channels buffer))" by simp
  also have "\<dots> = nat numChannels" by (simp only: dims length_replicate)
  finally have a: "length (channels buffer) = nat numChannels" .
  have "length ` set (channels buffer) = set (map length (channels buffer))" by simp
  also have "\<dots> \<subseteq> {length data div 2 div nat numChannels}"
    by (simp only: dims set_replicate_conv_if) simp
  finally have "\<forall>channelData \<in> set (channels buffer).
      length channelData = length data div 2 div nat numChannels" by auto
  with a show ?thesis by simp
qed

theorem decodeAudioData_channel_lengths_witness:
  "decodeAudioData [1, 0, 2, 0, 3, 0, 4, 0, 5, 0] minimalContext 24000 2
     = Inr \<lparr>rate = 24000, channels = [[Float (1 / 32768), Float (3 / 32768)],
                                       [Float (1 / 16384), Float (1 / 8192)]]\<rparr>
   \<and> length (channels \<lparr>rate = 24000, channels = [[Float (1 / 32768), Float (3 / 32768)],
                                       [Float (1 / 16384), Float (1 / 8192)]]\<rparr>) = 2
   \<and> map length [[Float (1 / 32768), Float (3 / 32768)],
                  [Float (1 / 16384), Float (1 / 8192 :: rat)]] = [2, 2]"
proof -
  have run: "decodeAudioData [1, 0, 2, 0, 3, 0, 4, 0, 5, 0] minimalContext 24000 2
     = Inr \<lparr>rate = 24000, channels = [[Float (1 / 32768), Float (3 / 32768)],
                                       [Float (1 / 16384), Float (1 / 8192)]]\<rparr>"
    by code_simp
  from decodeAudioData_channel_lengths [OF run] show ?thesis using run by simp
qed

text \<open>
  C2, as the code has it. The claim speaks of every byte input, but a byte sequence of odd
  length is refused when the 16-bit view is built:
\<close>

theorem decodeAudioData_three_bytes_counterexample:
  "decodeAudioData [1, 0, 2] minimalContext 24000 1 = Inl RangeError"
  by (simp add: decodeAudioData_def newInt16Array_def)

text \<open>
  C2, amended. For a byte input of even length that holds at least one whole frame, on a
  context that offers the channel count and the sample rate, decoding succeeds with
  \<open>numChannels\<close> channels of \<open>floor(sample count / numChannels)\<close> frames each, and the
  samples after the last whole frame are dropped without error: the input cut to its whole
  frames decodes to the same buffer.
\<close>

theorem decodeAudioData_frame_count:
  assumes "even (length data)" and "0 < numChannels"
    and "nat numChannels \<le> length data div 2"
    and "numChannels \<le> uint (maxChannels ctx)"
    and "minSampleRate ctx \<le> sampleRate" and "sampleRate \<le> maxSampleRate ctx"
    and "length data < 2 ^ 32"
  shows "\<exists>buffer. decodeAudioData data ctx sampleRate numChannels = Inr buffer
           \<and> length (channels buffer) = nat numChannels
           \<and> (\<forall>channelData \<in> set (channels buffer).
                 length channelData = length data div 2 div nat numChannels)
           \<and> decodeAudioData
                 (take (2 * (nat numChannels * (length data div 2 div nat numChannels))) data)
                 ctx sampleRate numChannels = Inr buffer"
proof -
  define n where "n = nat numChannels"
  define fc where "fc = length data div 2 div n"
  define cut where "cut = take (2 * (n * fc)) data"
  have n: "0 < n" using assms(2) by (simp add: n_def)
  have fc: "0 < fc" using assms(3) n by (simp add: fc_def n_def div_greater_zero_iff)
  have "n * fc \<le> length data div 2" by (simp add: fc_def)
  then have fits: "2 * (n * fc) \<le> length data" by simp
  then have len: "length cut = 2 * (n * fc)" by (simp add: cut_def)
  have res: "decodeAudioData data ctx sampleRate numChannels =
           Inr \<lparr>rate = sampleRate, channels = deinterleave (int16s data) n fc\<rparr>"
    unfolding n_def fc_def using assms by (intro decodeAudioData_result)
  have "n * 1 \<le> n * fc" using fc by (intro mult_le_mono2) simp
  then have full: "nat numChannels \<le> length cut div 2" by (simp add: len n_def)
  have "decodeAudioData cut ctx sampleRate numChannels =
           Inr \<lparr>rate = sampleRate,
                channels = deinterleave (int16s cut) (nat numChannels)
                             (length cut div 2 div nat numChannels)\<rparr>"
    using assms(2) assms(4) assms(5) assms(6) full
  proof (rule decodeAudioData_result [rotated])
    show "even (length cut)" by (simp add: len)
    have "length cut \<le> length data" by (simp add: cut_def)
    then show "length cut < 2 ^ 32" using assms(7) by (rule le_less_trans)
  qed
  also have "length cut div 2 div nat numChannels = fc" using n by (simp add: len n_def)
  also have "deinterleave (int16s cut) (nat numChannels) fc = deinterleave (int16s data) n fc"
    unfolding cut_def n_def [symmetric] using fits by (rule deinterleave_take)
  finally have "decodeAudioData cut ctx sampleRate numChannels =
           Inr \<lparr>rate = sampleRate, channels = deinterleave (int16s data) n fc\<rparr>" .
  then show ?thesis
    using res by (auto simp: deinterleave_def cut_def n_def fc_def)
qed

theorem decodeAudioData_frame_count_witness:
  "\<exists>buffer. decodeAudioData [1, 0, 2, 0, 3, 0] minimalContext 24000 2 = Inr buffer
     \<and> length (channels buffer) = 2
     \<and> map length (channels buffer) = [1, 1]
     \<and> decodeAudioData [1, 0, 2, 0] minimalContext 24000 2 = Inr buffer"
proof -
  have run: "decodeAudioData [1, 0, 2, 0, 3, 0] minimalContext 24000 2
     = Inr \<lparr>rate = 24000, channels = [[Float (1 / 32768)], [Float (1 / 16384)]]\<rparr>"
    by code_simp
  from decodeAudioData_frame_count [of "[1, 0, 2, 0, 3, 0]" 2 minimalContext 24000]
  show ?thesis using run by (simp add: minimalContext_def)
qed

text \<open>
  C5, as the code has it. Five bytes are not a multiple of the element size of the 16-bit
  view, so its construction throws and no frame count is ever computed:
\<close>

theorem decodeAudioData_five_bytes_counterexample:
  "decodeAudioData [1, 2, 3, 4, 5] minimalContext 24000 1 = Inl RangeError"
  by (simp add: decodeAudioData_def newInt16Array_def)

text \<open>
  C5, amended. An input of odd length is refused with a \<open>RangeError\<close> whatever the
  channel count is; an input of even length that ends in a partial frame, and holds at least
  one whole frame, is decoded without error to \<open>floor(sample count / numChannels)\<close>
  frames per channel.
\<close>

theorem decodeAudioData_dangling_byte:
  "(odd (length data) \<longrightarrow>
      decodeAudioData data ctx sampleRate numChannels = Inl RangeError)
   \<and> (even (length data) \<and> 0 < numChannels \<and> nat numChannels \<le> length data div 2
        \<and> numChannels \<le> uint (maxChannels ctx)
        \<and> minSampleRate ctx \<le> sampleRate \<and> sampleRate \<le> maxSampleRate ctx
        \<and> length data < 2 ^ 32 \<longrightarrow>
      (\<exists>buffer. decodeAudioData data ctx sampleRate numChannels = Inr buffer
         \<and> (\<forall>channelData \<in> set (channels buffer).
               length channelData = length data div 2 div nat numChannels)))"
  using decodeAudioData_odd [of data ctx sampleRate numChannels]
    decodeAudioData_frames [of data numChannels ctx sampleRate]
  by blast

theorem decodeAudioData_dangling_byte_witness:
  "decodeAudioData [1, 2, 3, 4, 5] minimalContext 24000 1 = Inl RangeError
   \<and> (\<exists>buffer. decodeAudioData [1, 0, 2, 0, 3, 0] minimalContext 24000 2 = Inr buffer
         \<and> map length (channels buffer) = [1, 1])"
proof -
  have run: "decodeAudioData [1, 0, 2, 0, 3, 0] minimalContext 24000 2
     = Inr \<lparr>rate = 24000, channels = [[Float (1 / 32768)], [Float (1 / 16384)]]\<rparr>"
    by code_simp
  from decodeAudioData_dangling_byte [of "[1, 2, 3, 4, 5]" minimalContext 24000 1]
    decodeAudioData_dangling_byte [of "[1, 0, 2, 0, 3, 0]" minimalContext 24000 2]
  show ?thesis using run by (simp add: minimalContext_def)
qed

section \<open>Channel counts that are not positive\<close>

lemma unsignedLong_small_negative_quotient:
  assumes "numChannels < 0" "m div nat (- numChannels) = 0"
  shows "unsignedLong (rat_of_nat m / rat_of_int numChannels) = 0"
proof -
  define k where "k = nat (- numChannels)"
  have k: "0 < k" "numChannels = - int k" using assms(1) by (simp_all add: k_def)
  have neg: "- (rat_of_nat m / rat_of_int numChannels) = rat_of_nat m / rat_of_nat k"
    by (simp add: k(2))
  have "\<lfloor>rat_of_nat m / rat_of_nat k\<rfloor> = int (m div k)"
    by (simp add: floor_divide_of_nat_eq)
  also have "\<dots> = 0" using assms(2) by (simp add: k_def)
  finally have fl: "\<lfloor>- (rat_of_nat m / rat_of_int numChannels)\<rfloor> = 0"
    by (simp only: neg)
  show ?thesis
  proof (cases "rat_of_nat m / rat_of_int numChannels < 0")
    case True
    then show ?thesis by (simp only: unsignedLong_def if_True fl) simp
  next
    case False
    moreover have "rat_of_nat m / rat_of_int numChannels \<le> 0"
      using assms(1) by (simp add: divide_le_0_iff)
    ultimately have "rat_of_nat m / rat_of_int numChannels = 0" by simp
    then show ?thesis by (simp only: unsignedLong_def) simp
  qed
qed

lemma word_of_negative_channels:
  assumes "numChannels < 0" "- numChannels < 2 ^ 31" "maxChannels ctx < 2 ^ 31"
  shows "maxChannels ctx < (word_of_int numChannels :: 32 word)"
proof -
  have "numChannels mod 2 ^ 32 = (numChannels + 2 ^ 32) mod 2 ^ 32" by simp
  also have "\<dots> = numChannels + 2 ^ 32"
    using assms(1,2) by (intro mod_pos_pos_trivial) auto
  finally have "uint (word_of_int numChannels :: 32 word) = numChannels + 2 ^ 32"
    by (simp add: uint_word_of_int)
  moreover have "uint (maxChannels ctx) < 2 ^ 31"
    using assms(3) by (simp add: word_less_def)
  ultimately show ?thesis using assms(2) by (simp add: word_less_def)
qed

text \<open>
  C3. Called with \<open>numChannels \<le> 0\<close>, the decoder returns no buffer for any byte input:
  it fails with the error of the first call that refuses its arguments, a \<open>RangeError\<close>
  from the 16-bit view when the byte length is odd and otherwise the
  \<open>NotSupportedError\<close> of \<open>createBuffer\<close>, which is asked for zero channels, for a
  zero length or for \<open>2 ^ 32 + numChannels\<close> channels. Nothing in the decoder catches the
  error, so it reaches the caller. The byte length is below \<open>2 ^ 32\<close> and the context
  offers fewer than \<open>2 ^ 31\<close> channels.
\<close>

theorem decodeAudioData_nonpositive:
  assumes "numChannels \<le> 0"
    and "length data < 2 ^ 32"
    and "maxChannels ctx < 2 ^ 31"
  shows "decodeAudioData data ctx sampleRate numChannels
           = Inl (if even (length data) then NotSupportedError else RangeError)"
proof (cases "even (length data)")
  case False
  then show ?thesis by (simp add: decodeAudioData_odd)
next
  case True
  define d where "d = int16s data"
  have view: "newInt16Array data = Inr d" using True by (simp add: newInt16Array_def d_def)
  show ?thesis
  proof (cases "numChannels = 0")
    case zero: True
    then show ?thesis
      using True view by (simp add: decodeAudioData_def createBuffer_zero_channels)
  next
    case False
    then have neg: "numChannels < 0" using assms(1) by simp
    define q where "q = rat_of_nat (length d) / rat_of_int numChannels"
    have "createBuffer ctx (unsignedLong (rat_of_int numChannels)) (unsignedLong q) sampleRate
            = Inl NotSupportedError"
    proof (cases "length d div nat (- numChannels) = 0")
      case True
      then have "unsignedLong q = 0"
        unfolding q_def using neg by (intro unsignedLong_small_negative_quotient)
      then show ?thesis by (simp add: createBuffer_zero_length)
    next
      case False
      then have "nat (- numChannels) \<le> length d"
        using neg by (simp add: div_eq_0_iff)
      also have "\<dots> = length data div 2" by (simp add: d_def length_int16s)
      also have "\<dots> < 2 ^ 31" using assms(2) by simp
      finally have "- numChannels < 2 ^ 31" by simp
      with neg assms(3)
      have "maxChannels ctx < (word_of_int numChannels :: 32 word)"
        by (intro word_of_negative_channels)
      then show ?thesis by (simp add: createBuffer_def unsignedLong_of_int)
    qed
    then show ?thesis
      using True view False by (simp add: decodeAudioData_def Let_def q_def)
  qed
qed

theorem decodeAudioData_nonpositive_witness:
  "decodeAudioData [1, 0, 2, 0] minimalContext 24000 0 = Inl NotSupportedError
   \<and> decodeAudioData [1, 0, 2, 0] minimalContext 24000 (- 1) = Inl NotSupportedError
   \<and> decodeAudioData [1, 0, 2] minimalContext 24000 (- 2) = Inl RangeError"
  using decodeAudioData_nonpositive [of 0 "[1, 0, 2, 0]" minimalContext 24000]
    decodeAudioData_nonpositive [of "- 1" "[1, 0, 2, 0]" minimalContext 24000]
    decodeAudioData_nonpositive [of "- 2" "[1, 0, 2]" minimalContext 24000]
  by (simp add: minimalContext_def)

section \<open>Round trip\<close>

lemma requantize_div32768: "requantize (Float (rat_of_int z / 32768)) = Some z"
  by (simp add: requantize_def)

text \<open>
  C4. When the byte length is a multiple of \<open>2 * numChannels\<close>, re-quantizing a decoded
  sample (scaling by \<open>32768\<close> and rounding) gives an integer within one unit of the 16-bit
  integer it was decoded from, for every channel and every frame.
\<close>

theorem decodeAudioData_requantize:
  assumes "0 < numChannels"
    and "length data mod (2 * nat numChannels) = 0"
    and "numChannels \<le> uint (maxChannels ctx)"
    and "minSampleRate ctx \<le> sampleRate" and "sampleRate \<le> maxSampleRate ctx"
    and "length data < 2 ^ 32"
    and "c < nat numChannels" and "i < length data div (2 * nat numChannels)"
  shows "\<exists>buffer v. decodeAudioData data ctx sampleRate numChannels = Inr buffer
           \<and> requantize (channels buffer ! c ! i) = Some v
           \<and> \<bar>v - sint (le16 (data ! (2 * (i * nat numChannels + c)))
                              (data ! (2 * (i * nat numChannels + c) + 1)))\<bar> \<le> 1"
proof -
  let ?v = "sint (le16 (data ! (2 * (i * nat numChannels + c)))
                       (data ! (2 * (i * nat numChannels + c) + 1)))"
  let ?buffer = "\<lparr>rate = sampleRate,
                  channels = deinterleave (int16s data) (nat numChannels)
                               (length data div (2 * nat numChannels))\<rparr>"
  note s = whole_frames_sample [OF assms]
  have "requantize (channels ?buffer ! c ! i) = Some ?v"
    by (simp only: AudioBuffer.select_convs s(2) requantize_div32768)
  moreover have "\<bar>?v - ?v\<bar> \<le> 1" by simp
  ultimately show ?thesis using s(1) by blast
qed

theorem decodeAudioData_requantize_witness:
  "\<exists>buffer v. decodeAudioData [0x00, 0x80, 0xFF, 0x7F] minimalContext 24000 1 = Inr buffer
     \<and> requantize (channels buffer ! 0 ! 0) = Some v \<and> \<bar>v - (- 32768)\<bar> \<le> 1"
  using decodeAudioData_requantize [of 1 "[0x00, 0x80, 0xFF, 0x7F]" minimalContext 24000 0 0]
  by (simp add: minimalContext_def le16_def)

section \<open>The notebook invariant\<close>

text \<open>
  C9. \<open>toggleSave\<close> keeps the terms of the notebook pairwise distinct: when an entry with
  the term of the current result exists, every entry with that term is removed; otherwise the
  current result is put in front.
\<close>

theorem toggleSave_distinct_terms:
  assumes "distinct (map term' notebook)"
  shows "distinct (map term' (toggleSave currentResult notebook))
         \<and> (\<forall>cur. currentResult = Some cur \<longrightarrow>
               (if term' cur \<in> term' ` set notebook
                then toggleSave currentResult notebook
                       = filter (\<lambda>n. term' n \<noteq> term' cur) notebook
                     \<and> term' cur \<notin> term' ` set (toggleSave currentResult notebook)
                else toggleSave currentResult notebook = cur # notebook))"
proof (cases currentResult)
  case None
  then show ?thesis using assms by (simp add: toggleSave_def)
next
  case (Some cur)
  show ?thesis
  proof (cases "find (\<lambda>n. term' n = term' cur) notebook")
    case None
    then have "term' cur \<notin> term' ` set notebook" by (auto simp: find_None_iff)
    then show ?thesis using assms Some None by (simp add: toggleSave_def)
  next
    case (Some found)
    then have "term' cur \<in> term' ` set notebook"
      by (auto simp: find_Some_iff image_iff) (metis nth_mem)
    then show ?thesis
      using assms Some \<open>currentResult = Some cur\<close>
      by (auto simp: toggleSave_def distinct_map_filter)
  qed
qed


theorem toggleSave_distinct_terms_witness:
  "distinct (map term' [sampleEntry ''hola'', sampleEntry ''adios''])
   \<and> toggleSave (Some (sampleEntry ''hola'')) [sampleEntry ''hola'', sampleEntry ''adios'']
       = [sampleEntry ''adios'']
   \<and> toggleSave (Some (sampleEntry ''gato'')) [sampleEntry ''hola'', sampleEntry ''adios'']
       = [sampleEntry ''gato'', sampleEntry ''hola'', sampleEntry ''adios'']
   \<and> distinct (map term' (toggleSave (Some (sampleEntry ''gato''))
                             [sampleEntry ''hola'', sampleEntry ''adios'']))"
proof -
  have d: "distinct (map term' [sampleEntry ''hola'', sampleEntry ''adios''])"
    by (simp add: sampleEntry_def)
  from toggleSave_distinct_terms [OF d, of "Some (sampleEntry ''hola'')"]
    toggleSave_distinct_terms [OF d, of "Some (sampleEntry ''gato'')"] d
  show ?thesis by (simp add: sampleEntry_def)
qed

section \<open>The fallback of playAudio\<close>





section \<open>Lookup without an image\<close>

lemma firstInlineImage_None:
  "firstInlineImage ps = None \<longleftrightarrow> (\<forall>part \<in> set ps. inlineData part = None)"
  by (induction ps) (auto split: option.splits)

text \<open>
  C10, as the code has it. The claim promises an entry whenever the text-analysis step
  succeeds. When the text of the response is \<open>null\<close>, the call returns and
  \<open>JSON.parse\<close> succeeds, yet \<open>lookupTerm\<close> throws a \<open>TypeError\<close> in its
  \<open>return\<close> statement, where it reads the properties of the parsed value:
\<close>

theorem lookupTerm_null_text_counterexample:
  "generateContent nullTextPlatform (TextAnalysisRequest ''hola'' ''English'' ''Spanish'')
     = Inr \<lparr>text' = Some ''null'', parts' = None\<rparr>
   \<and> jsonParse nullTextPlatform ''null'' = Inr None
   \<and> lookupTerm nullTextPlatform ''hola'' ''English'' ''Spanish'' = Inl TypeError"
  by (simp add: lookupTerm_def nullTextPlatform_def demoPlatform_def textOrEmptyObject_def)

text \<open>
  C10, amended. When the text-analysis call returns and its text (\<open>{}\<close> in place of a
  missing or empty text) parses to a value other than \<open>null\<close>, \<open>lookupTerm\<close> returns an
  entry whose text fields are those of the parsed text, whatever image generation does; the
  entry has no image URL when image generation threw or returned no part with inline data.
\<close>

theorem lookupTerm_image_failure:
  assumes "generateContent p (TextAnalysisRequest term nativeLang targetLang) = Inr textResponse"
    and "(text' textResponse = None \<or> text' textResponse = Some '''')
           \<and> jsonParse p ''{}'' = Inr (Some textData)
         \<or> (\<exists>t. text' textResponse = Some t \<and> t \<noteq> ''''
                \<and> jsonParse p t = Inr (Some textData))"
  shows "\<exists>entry. lookupTerm p term nativeLang targetLang = Inr entry
           \<and> term' entry = term
           \<and> phonetic entry = tdPhonetic textData
           \<and> definition' entry = tdDefinition textData
           \<and> examples entry = (case tdExamples textData of None \<Rightarrow> [] | Some xs \<Rightarrow> xs)
           \<and> usageGuide entry = tdUsageGuide textData
           \<and> ((\<exists>e. generateContent p (ImageRequest term) = Inl e) \<longrightarrow> imageUrl entry = None)
           \<and> (\<forall>imageResponse.
                 generateContent p (ImageRequest term) = Inr imageResponse
                 \<and> (\<forall>part \<in> set (case parts' imageResponse of None \<Rightarrow> [] | Some ps \<Rightarrow> ps).
                       inlineData part = None)
                 \<longrightarrow> imageUrl entry = None)"
proof -
  have parsed: "jsonParse p (textOrEmptyObject textResponse) = Inr (Some textData)"
    using assms(2) by (auto simp: textOrEmptyObject_def)
  have thrown: "generateImageUrl p term = None"
    if "generateContent p (ImageRequest term) = Inl e" for e
    using that by (simp add: generateImageUrl_def)
  have empty: "generateImageUrl p term = None"
    if "generateContent p (ImageRequest term) = Inr imageResponse"
      and "\<forall>part \<in> set (case parts' imageResponse of None \<Rightarrow> [] | Some ps \<Rightarrow> ps).
             inlineData part = None"
    for imageResponse
    using that by (simp add: generateImageUrl_def firstInlineImage_None)
  show ?thesis
    using assms(1) parsed thrown empty by (auto simp: lookupTerm_def Let_def)
qed

theorem lookupTerm_image_failure_witness:
  \<open>(\<exists>entry. lookupTerm demoPlatform ''hola'' ''English'' ''Spanish'' = Inr entry
       \<and> term' entry = ''hola'' \<and> phonetic entry = None
       \<and> definition' entry = Some ''hello'' \<and> examples entry = []
       \<and> usageGuide entry = None \<and> imageUrl entry = None)
   \<and> (\<exists>entry. lookupTerm silentPlatform ''hola'' ''English'' ''Spanish'' = Inr entry
       \<and> term' entry = ''hola'' \<and> phonetic entry = None
       \<and> definition' entry = None \<and> examples entry = []
       \<and> usageGuide entry = None \<and> imageUrl entry = None)\<close>
proof -
  from lookupTerm_image_failure [of demoPlatform "''hola''" "''English''" "''Spanish''"
      \<open>\<lparr>text' = Some ''{"definition":"hello"}'', parts' = None\<rparr>\<close>
      "\<lparr>tdPhonetic = None, tdDefinition = Some ''hello'', tdExamples = None, tdUsageGuide = None\<rparr>"]
  have demo: "\<exists>entry. lookupTerm demoPlatform ''hola'' ''English'' ''Spanish'' = Inr entry
       \<and> term' entry = ''hola'' \<and> phonetic entry = None
       \<and> definition' entry = Some ''hello'' \<and> examples entry = []
       \<and> usageGuide entry = None \<and> imageUrl entry = None"
    by (simp add: demoPlatform_def)
  from lookupTerm_image_failure [of silentPlatform "''hola''" "''English''" "''Spanish''"
      "\<lparr>text' = None, parts' = None\<rparr>"
      "\<lparr>tdPhonetic = None, tdDefinition = None, tdExamples = None, tdUsageGuide = None\<rparr>"]
  have silent: "\<exists>entry. lookupTerm silentPlatform ''hola'' ''English'' ''Spanish'' = Inr entry
       \<and> term' entry = ''hola'' \<and> phonetic entry = None
       \<and> definition' entry = None \<and> examples entry = []
       \<and> usageGuide entry = None \<and> imageUrl entry = None"
    by (simp add: silentPlatform_def demoPlatform_def)
  from demo silent show ?thesis by simp
qed

end
